theory Spec2Isabelle
  imports Main
begin

section \<open>JavaScript strings and Map objects\<close>

text \<open>
  Strings are lists of characters.  The patterns of the program are ASCII, so the
  case folding of \<open>toLowerCase\<close> and of the \<open>i\<close> flag of a regular expression is the
  folding of the 26 ASCII letters.
\<close>

definition toLowerChar :: "char \<Rightarrow> char" where
  "toLowerChar c =
     (case map_of (zip ''ABCDEFGHIJKLMNOPQRSTUVWXYZ'' ''abcdefghijklmnopqrstuvwxyz'') c of
        Some d \<Rightarrow> d
      | None \<Rightarrow> c)"

definition toLowerCase :: "string \<Rightarrow> string" where
  "toLowerCase s = map toLowerChar s"

text \<open>\<open>s.startsWith(p)\<close>, \<open>s.endsWith(p)\<close> and \<open>s.includes(p)\<close>.\<close>

definition startsWith :: "string \<Rightarrow> string \<Rightarrow> bool" where
  "startsWith s p = (take (length p) s = p)"

definition endsWith :: "string \<Rightarrow> string \<Rightarrow> bool" where
  "endsWith s p = (length p \<le> length s \<and> drop (length s - length p) s = p)"


text \<open>
  A \<open>Map\<close> with string keys is an association list in insertion order with distinct
  keys: \<open>set\<close> overwrites the value of a key that is present, in place, and appends a
  new key at the end.
\<close>

type_synonym 'v js_map = "(string \<times> 'v) list"

definition map_has :: "'v js_map \<Rightarrow> string \<Rightarrow> bool" where
  "map_has m k = (map_of m k \<noteq> None)"

definition map_get :: "'v js_map \<Rightarrow> string \<Rightarrow> 'v option" where
  "map_get m k = map_of m k"

fun map_set :: "'v js_map \<Rightarrow> string \<Rightarrow> 'v \<Rightarrow> 'v js_map" where
  "map_set [] k v = [(k, v)]"
| "map_set ((k', v') # m) k v = (if k' = k then (k, v) # m else (k', v') # map_set m k v)"

definition map_delete :: "'v js_map \<Rightarrow> string \<Rightarrow> 'v js_map" where
  "map_delete m k = filter (\<lambda>kv. fst kv \<noteq> k) m"

section \<open>The HTTP server (src/index.js)\<close>

subsection \<open>The server factory: request and upgrade listeners\<close>

text \<open>
  A response under construction is the table of the headers set so far.  Node's
  \<open>setHeader\<close> and \<open>getHeader\<close> address a header by its lower-cased name.
\<close>

type_synonym headers = "string js_map"

definition setHeader :: "headers \<Rightarrow> string \<Rightarrow> string \<Rightarrow> headers" where
  "setHeader hs name v = map_set hs (toLowerCase name) v"

definition getHeader :: "headers \<Rightarrow> string \<Rightarrow> string option" where
  "getHeader hs name = map_get hs (toLowerCase name)"

text \<open>
  The \<open>request\<close> listener sets the two isolation headers unless the URL is under
  \<open>/ads/\<close>, then passes request and response to the framework's handler.
  \<open>request_headers\<close> is the response as the handler receives it.
\<close>

definition request_headers :: "string \<Rightarrow> headers \<Rightarrow> headers" where
  "request_headers url res =
     (if \<not> startsWith url ''/ads/'' then
        setHeader (setHeader res ''Cross-Origin-Opener-Policy'' ''same-origin'')
          ''Cross-Origin-Embedder-Policy'' ''require-corp''
      else res)"

definition on_request :: "(string \<Rightarrow> headers \<Rightarrow> 'r) \<Rightarrow> string \<Rightarrow> headers \<Rightarrow> 'r" where
  "on_request handler url res = handler url (request_headers url res)"

text \<open>The \<open>upgrade\<close> listener either hands the socket to the wisp server or ends it.\<close>

datatype upgrade_action = RouteRequest | SocketEnd

definition on_upgrade :: "string \<Rightarrow> upgrade_action" where
  "on_upgrade url = (if endsWith url ''/wisp/'' then RouteRequest else SocketEnd)"

subsection \<open>Regular-expression replacement\<close>





subsection \<open>The ad-link relay: \<open>GET /ads/proxy\<close>\<close>

text \<open>
  Of a parsed URL the handler reads the protocol, the host name and the serialisation.
  Of the request it reads the query parameter \<open>u\<close> (absent, or a string; a parameter
  given several times arrives as an array, which is truthy and which the URL
  constructor reads as its elements joined by commas, that is, as a non-empty string)
  and three headers, which Node keeps under lower-case names.  An upstream response
  has a status, headers under lower-case names, and a body that \<open>res.text()\<close> delivers
  unless reading it fails.
\<close>

record url =
  protocol :: string
  hostname :: string
  href :: string






























text \<open>\<open>a || b\<close> on an optional string: \<open>undefined\<close> and the empty string give \<open>b\<close>.\<close>

definition or_default :: "string option \<Rightarrow> string \<Rightarrow> string" where
  "or_default a b = (case a of None \<Rightarrow> b | Some s \<Rightarrow> if s = [] then b else s)"








subsection \<open>The guards of the relay in the words of the specification\<close>



subsection \<open>An example environment\<close>









section \<open>The browsing surface (the client script)\<close>

text \<open>
  There are two versions of the client script.  \<open>TabManager\<close> and the navigation
  functions are the same text in both; the later version adds \<open>CookieManager\<close> and the
  retries of a navigation.
\<close>

subsection \<open>TabManager\<close>

text \<open>
  The part of the document the tab manager works on: the tab elements of the tab strip
  (each known by its \<open>data-tab-id\<close>), the panels of the main area (the panel of tab \<open>t\<close>
  has the id \<open>tab-t\<close>; the flag says whether it holds an iframe), and which of them carry
  the class \<open>active\<close>.  The address bar is left out.
\<close>

record dom =
  tab_strip :: "string list"
  panels :: "(string \<times> bool) list"
  active_tabs :: "string list"
  active_panels :: "string list"

text \<open>
  The object stored for a tab.  \<open>element\<close> and \<open>content\<close> refer to the two nodes of the
  tab, named here by the tab identifier they were created for.
\<close>

record tab =
  element :: string
  content :: string
  title :: string
  tab_url :: "string option"
  loading :: bool

text \<open>
  \<open>currentTabId\<close> is optional because \<open>switchToTab\<close> can be called with \<open>undefined\<close>
  (the first key of an empty map).
\<close>

record tab_manager =
  tabs :: "tab js_map"
  currentTabId :: "string option"
  tabCounter :: nat
  history :: "string list js_map"
  currentHistoryIndex :: "int js_map"
  document :: dom

text \<open>Decimal digits of a number, for the template literal \<open>`tab-${n}`\<close>.\<close>

fun show_nat :: "nat \<Rightarrow> string" where
  "show_nat n =
     (if n < 10 then [''0123456789'' ! n]
      else show_nat (n div 10) @ [''0123456789'' ! (n mod 10)])"

declare show_nat.simps [simp del]

text \<open>A value inside a template literal: \<open>undefined\<close> prints as the word.\<close>

definition template :: "string option \<Rightarrow> string" where
  "template x = (case x of None \<Rightarrow> ''undefined'' | Some s \<Rightarrow> s)"

definition map_get_opt :: "'v js_map \<Rightarrow> string option \<Rightarrow> 'v option" where
  "map_get_opt m k = (case k of None \<Rightarrow> None | Some k' \<Rightarrow> map_get m k')"

text \<open>
  The constructor, followed by the \<open>DOMContentLoaded\<close> listener that registers the home
  tab.  The page itself is not part of the sources, so its document is a parameter.
\<close>

definition new_TabManager :: "dom \<Rightarrow> tab_manager" where
  "new_TabManager d =
     \<lparr>tabs = [], currentTabId = Some ''home'', tabCounter = 1, history = [],
      currentHistoryIndex = [], document = d\<rparr>"

definition initialize :: "tab_manager \<Rightarrow> tab_manager" where
  "initialize s =
     s\<lparr>tabs := map_set (tabs s) ''home''
            \<lparr>element = ''home'', content = ''home'', title = ''Home'', tab_url = None,
             loading = False\<rparr>,
       history := map_set (history s) ''home'' [],
       currentHistoryIndex := map_set (currentHistoryIndex s) ''home'' (- 1)\<rparr>"

definition switchToTab :: "tab_manager \<Rightarrow> string option \<Rightarrow> tab_manager" where
  "switchToTab s tabId =
     (let d = (document s)\<lparr>active_tabs := [], active_panels := []\<rparr>
      in if template tabId \<in> set (tab_strip d) \<and> template tabId \<in> set (map fst (panels d))
         then s\<lparr>document := d\<lparr>active_tabs := [template tabId],
                                 active_panels := [template tabId]\<rparr>,
                currentTabId := tabId\<rparr>
         else s\<lparr>document := d\<rparr>)"

text \<open>
  \<open>createTab(url, title)\<close> returns the new identifier; \<open>url\<close> is \<open>null\<close> by default, and
  the panel gets an iframe when \<open>url\<close> is truthy.
\<close>

definition createTab :: "tab_manager \<Rightarrow> string option \<Rightarrow> string \<Rightarrow> string \<times> tab_manager" where
  "createTab s url ttl =
     (let tabId = ''tab-'' @ show_nat (tabCounter s);
          d = document s;
          d' = d\<lparr>tab_strip := tab_strip d @ [tabId],
                 panels := panels d @ [(tabId, url \<noteq> None \<and> url \<noteq> Some [])]\<rparr>;
          s1 = s\<lparr>tabCounter := tabCounter s + 1,
                 document := d',
                 history := map_set (history s) tabId [],
                 currentHistoryIndex := map_set (currentHistoryIndex s) tabId (- 1),
                 tabs := map_set (tabs s) tabId
                   \<lparr>element = tabId, content = tabId, title = ttl, tab_url = url,
                    loading = False\<rparr>\<rparr>
      in (tabId, switchToTab s1 (Some tabId)))"

definition remove_node :: "dom \<Rightarrow> string \<Rightarrow> string \<Rightarrow> dom" where
  "remove_node d el pn =
     d\<lparr>tab_strip := filter (\<lambda>t. t \<noteq> el) (tab_strip d),
       active_tabs := filter (\<lambda>t. t \<noteq> el) (active_tabs d),
       panels := filter (\<lambda>p. fst p \<noteq> pn) (panels d),
       active_panels := filter (\<lambda>t. t \<noteq> pn) (active_panels d)\<rparr>"

text \<open>\<open>closeTab(event, tabId)\<close>; \<open>event.stopPropagation()\<close> touches nothing modelled here.\<close>

definition closeTab :: "tab_manager \<Rightarrow> string \<Rightarrow> tab_manager" where
  "closeTab s tabId =
     (if length (tabs s) \<le> 1 then s
      else
        case map_get (tabs s) tabId of
          None \<Rightarrow> s
        | Some t \<Rightarrow>
            let s1 = s\<lparr>document := remove_node (document s) (element t) (content t),
                       tabs := map_delete (tabs s) tabId,
                       history := map_delete (history s) tabId,
                       currentHistoryIndex := map_delete (currentHistoryIndex s) tabId\<rparr>
            in if currentTabId s1 = Some tabId then
                 switchToTab s1 (case map fst (tabs s1) of [] \<Rightarrow> None | k # _ \<Rightarrow> Some k)
               else s1)"

definition updateTabTitle :: "tab_manager \<Rightarrow> string \<Rightarrow> string \<Rightarrow> tab_manager" where
  "updateTabTitle s tabId ttl =
     (case map_get (tabs s) tabId of
        None \<Rightarrow> s
      | Some t \<Rightarrow> s\<lparr>tabs := map_set (tabs s) tabId (t\<lparr>title := ttl\<rparr>)\<rparr>)"

definition updateTabUrl :: "tab_manager \<Rightarrow> string \<Rightarrow> string \<Rightarrow> tab_manager" where
  "updateTabUrl s tabId u =
     (case map_get (tabs s) tabId of
        None \<Rightarrow> s
      | Some t \<Rightarrow> s\<lparr>tabs := map_set (tabs s) tabId (t\<lparr>tab_url := Some u\<rparr>)\<rparr>)"

text \<open>
  \<open>a.splice(start)\<close> removes everything from \<open>start\<close> on; a negative \<open>start\<close> counts from
  the end.  What is left of \<open>a\<close>:
\<close>

definition splice_from :: "'a list \<Rightarrow> int \<Rightarrow> 'a list" where
  "splice_from a start =
     (let len = int (length a);
          actualStart = (if start < 0 then max (len + start) 0 else min start len)
      in take (nat actualStart) a)"

text \<open>
  \<open>addToHistory(tabId, url)\<close>.  A missing index is \<open>undefined\<close>, and \<open>undefined + 1\<close> is
  \<open>NaN\<close>, which \<open>splice\<close> reads as 0.
\<close>

definition addToHistory :: "tab_manager \<Rightarrow> string \<Rightarrow> string \<Rightarrow> tab_manager" where
  "addToHistory s tabId u =
     (let s1 = (if \<not> map_has (history s) tabId
                then s\<lparr>history := map_set (history s) tabId [],
                       currentHistoryIndex := map_set (currentHistoryIndex s) tabId (- 1)\<rparr>
                else s);
          h = (case map_get (history s1) tabId of Some a \<Rightarrow> a | None \<Rightarrow> []);
          start = (case map_get (currentHistoryIndex s1) tabId of
                     Some currentIndex \<Rightarrow> currentIndex + 1
                   | None \<Rightarrow> 0);
          h' = splice_from h start @ [u]
      in s1\<lparr>history := map_set (history s1) tabId h',
            currentHistoryIndex :=
              map_set (currentHistoryIndex s1) tabId (int (length h') - 1)\<rparr>)"

text \<open>
  What \<open>goBack\<close> and \<open>goForward\<close> do to the manager before they navigate: they move the
  index of the current tab.  \<open>goForward\<close> reads \<open>history.length\<close> and throws when the
  current tab has no history; nothing has changed by then.
\<close>

definition goBack :: "tab_manager \<Rightarrow> tab_manager" where
  "goBack s =
     (case map_get_opt (currentHistoryIndex s) (currentTabId s) of
        None \<Rightarrow> s
      | Some currentIndex \<Rightarrow>
          if currentIndex > 0 then
            s\<lparr>currentHistoryIndex :=
                map_set (currentHistoryIndex s) (template (currentTabId s)) (currentIndex - 1)\<rparr>
          else s)"

definition goForward :: "tab_manager \<Rightarrow> tab_manager" where
  "goForward s =
     (case map_get_opt (history s) (currentTabId s) of
        None \<Rightarrow> s
      | Some h \<Rightarrow>
          (case map_get_opt (currentHistoryIndex s) (currentTabId s) of
             None \<Rightarrow> s
           | Some currentIndex \<Rightarrow>
               if currentIndex < int (length h) - 1 then
                 s\<lparr>currentHistoryIndex :=
                     map_set (currentHistoryIndex s) (template (currentTabId s))
                       (currentIndex + 1)\<rparr>
               else s))"

text \<open>The states of the manager that the operations lead to from a loaded page.\<close>

inductive reachable :: "tab_manager \<Rightarrow> bool" where
  r_init: "reachable (initialize (new_TabManager d))"
| r_createTab: "reachable s \<Longrightarrow> reachable (snd (createTab s url ttl))"
| r_closeTab: "reachable s \<Longrightarrow> reachable (closeTab s tabId)"
| r_switchToTab: "reachable s \<Longrightarrow> reachable (switchToTab s (Some tabId))"
| r_updateTabTitle: "reachable s \<Longrightarrow> reachable (updateTabTitle s tabId ttl)"
| r_updateTabUrl: "reachable s \<Longrightarrow> reachable (updateTabUrl s tabId u)"
| r_addToHistory: "reachable s \<Longrightarrow> reachable (addToHistory s tabId u)"
| r_goBack: "reachable s \<Longrightarrow> reachable (goBack s)"
| r_goForward: "reachable s \<Longrightarrow> reachable (goForward s)"

text \<open>
  The history and the index of a tab as \<open>addToHistory\<close> sees them: a tab without an
  entry counts as the empty list with index \<open>-1\<close>.
\<close>

definition history_of :: "tab_manager \<Rightarrow> string \<Rightarrow> string list" where
  "history_of s t = (case map_get (history s) t of Some a \<Rightarrow> a | None \<Rightarrow> [])"

definition index_of :: "tab_manager \<Rightarrow> string \<Rightarrow> int" where
  "index_of s t = (case map_get (currentHistoryIndex s) t of Some i \<Rightarrow> i | None \<Rightarrow> - 1)"

text \<open>
  Two invariants of the reachable states: the keys of \<open>tabs\<close> are distinct and there is
  at least one, and every tab with a history has an index that is at least \<open>-1\<close>.
\<close>

definition tabs_inv :: "tab_manager \<Rightarrow> bool" where
  "tabs_inv s \<longleftrightarrow> distinct (map fst (tabs s)) \<and> tabs s \<noteq> []"

definition history_inv :: "tab_manager \<Rightarrow> bool" where
  "history_inv s \<longleftrightarrow>
     (\<forall>t h. map_get (history s) t = Some h \<longrightarrow>
        (\<exists>i. map_get (currentHistoryIndex s) t = Some i \<and> - 1 \<le> i))"

text \<open>Example states: a loaded page, and a tab with two visited pages after going back.\<close>

definition example_dom :: dom where
  "example_dom =
     \<lparr>tab_strip = [''home''], panels = [(''home'', False)], active_tabs = [''home''],
      active_panels = [''home'']\<rparr>"

definition example_tabs :: tab_manager where
  "example_tabs =
     goBack (addToHistory (addToHistory (initialize (new_TabManager example_dom))
       ''home'' ''a.example'') ''home'' ''b.example'')"

definition example_home :: tab_manager where
  "example_home = initialize (new_TabManager example_dom)"

subsection \<open>CookieManager\<close>

text \<open>
  The text under a key of \<open>localStorage\<close> is either no JSON at all (\<open>JSON.parse\<close> throws
  on it; the empty string, which \<open>if (stored)\<close> skips, is of this kind) or the text of a
  JSON document, which is kept as the document it denotes.  Numbers are integers here.
\<close>

datatype json = JNull | JBool bool | JNum int | JStr string | JArr "json list"
  | JObj "(string \<times> json) list"

datatype item = Not_JSON | JSON_text json

datatype js_error = TypeError

text \<open>The object literal that \<open>setCookie\<close> stores; \<open>expires\<close> may be \<open>undefined\<close>.\<close>

record cookie =
  cookie_value :: string
  domain :: string
  path :: string
  expires :: "string option"
  secure :: bool
  httpOnly :: bool
  sameSite :: string

text \<open>The \<open>options\<close> argument of \<open>setCookie\<close>; every property may be missing.\<close>

record options =
  opt_path :: "string option"
  opt_expires :: "string option"
  opt_secure :: "bool option"
  opt_httpOnly :: "bool option"
  opt_sameSite :: "string option"

definition no_options :: options where
  "no_options =
     \<lparr>opt_path = None, opt_expires = None, opt_secure = None, opt_httpOnly = None,
      opt_sameSite = None\<rparr>"

text \<open>
  A value of the outer map is a \<open>Map\<close> of cookies when \<open>setCookie\<close> created it, and
  whatever \<open>JSON.parse\<close> produced when \<open>loadCookies\<close> created it.
\<close>

datatype entry = DomainMap "cookie js_map" | Loaded json

record cookie_manager =
  cookieStore :: "entry js_map"
  localStorage :: "string \<rightharpoonup> item"
  storage_full :: bool

text \<open>Truthiness, for \<open>if (!domainCookies)\<close>.\<close>

fun json_truthy :: "json \<Rightarrow> bool" where
  "json_truthy JNull = False"
| "json_truthy (JBool b) = b"
| "json_truthy (JNum n) = (n \<noteq> 0)"
| "json_truthy (JStr s) = (s \<noteq> [])"
| "json_truthy (JArr xs) = True"
| "json_truthy (JObj kvs) = True"

fun entry_truthy :: "entry \<Rightarrow> bool" where
  "entry_truthy (DomainMap m) = True"
| "entry_truthy (Loaded j) = json_truthy j"

text \<open>
  \<open>JSON.stringify\<close> of a value of the outer map.  A \<open>Map\<close> has no enumerable own
  properties, so it is written as \<open>{}\<close>; a parsed value is written back as it was read.
\<close>

fun entry_json :: "entry \<Rightarrow> json" where
  "entry_json (DomainMap m) = JObj []"
| "entry_json (Loaded j) = j"

text \<open>
  \<open>Object.fromEntries\<close> and \<open>new Map(entries)\<close>: later entries overwrite earlier ones
  with the same key.
\<close>

definition fromEntries :: "(string \<times> 'v) list \<Rightarrow> 'v js_map" where
  "fromEntries kvs = foldl (\<lambda>m (k, v). map_set m k v) [] kvs"

text \<open>
  \<open>Object.entries\<close>: it throws on \<open>null\<close>, and lists the indices of a string or an array.
\<close>

definition indexed :: "'a list \<Rightarrow> (string \<times> 'a) list" where
  "indexed xs = zip (map show_nat [0..<length xs]) xs"

fun object_entries :: "json \<Rightarrow> js_error + (string \<times> json) list" where
  "object_entries JNull = Inl TypeError"
| "object_entries (JBool b) = Inr []"
| "object_entries (JNum n) = Inr []"
| "object_entries (JStr s) = Inr (indexed (map (\<lambda>c. JStr [c]) s))"
| "object_entries (JArr xs) = Inr (indexed xs)"
| "object_entries (JObj kvs) = Inr kvs"

text \<open>
  \<open>saveCookies\<close>: \<open>setItem\<close> throws when the storage is full, and the \<open>catch\<close> only logs.
\<close>

definition saveCookies :: "cookie_manager \<Rightarrow> cookie_manager" where
  "saveCookies st =
     (let obj = fromEntries (cookieStore st)
      in if storage_full st then st
         else st\<lparr>localStorage := (localStorage st)
                (''novanet_cookies'' \<mapsto> JSON_text (JObj (map (\<lambda>(d, e). (d, entry_json e)) obj)))\<rparr>)"

text \<open>\<open>loadCookies\<close>: whatever is thrown inside the \<open>try\<close> leaves the store as it was.\<close>

definition loadCookies :: "cookie_manager \<Rightarrow> cookie_manager" where
  "loadCookies st =
     (case localStorage st ''novanet_cookies'' of
        None \<Rightarrow> st
      | Some Not_JSON \<Rightarrow> st
      | Some (JSON_text parsed) \<Rightarrow>
          (case object_entries parsed of
             Inl err \<Rightarrow> st
           | Inr es \<Rightarrow> st\<lparr>cookieStore := fromEntries (map (\<lambda>(k, v). (k, Loaded v)) es)\<rparr>))"

text \<open>The constructor, on a page whose storage is \<open>ls\<close>.\<close>

definition new_CookieManager :: "(string \<rightharpoonup> item) \<Rightarrow> bool \<Rightarrow> cookie_manager" where
  "new_CookieManager ls full =
     loadCookies \<lparr>cookieStore = [], localStorage = ls, storage_full = full\<rparr>"

text \<open>
  \<open>setCookie(domain, name, value, options)\<close>.  Calling \<open>set\<close> on a value that is no
  \<open>Map\<close> throws a \<open>TypeError\<close>, which nothing catches; the store is unchanged then,
  because the key was present.
\<close>

definition or_false :: "bool option \<Rightarrow> bool" where
  "or_false b = (case b of None \<Rightarrow> False | Some x \<Rightarrow> x)"

definition setCookie ::
  "cookie_manager \<Rightarrow> string \<Rightarrow> string \<Rightarrow> string \<Rightarrow> options \<Rightarrow> js_error + cookie_manager" where
  "setCookie st d n v opts =
     (let store1 = (if \<not> map_has (cookieStore st) d
                    then map_set (cookieStore st) d (DomainMap [])
                    else cookieStore st)
      in case map_get store1 d of
           Some (DomainMap domainCookies) \<Rightarrow>
             Inr (saveCookies (st\<lparr>cookieStore := map_set store1 d
               (DomainMap (map_set domainCookies n
                  \<lparr>cookie_value = v, domain = d, path = or_default (opt_path opts) ''/'',
                   expires = opt_expires opts, secure = or_false (opt_secure opts),
                   httpOnly = or_false (opt_httpOnly opts),
                   sameSite = or_default (opt_sameSite opts) ''Lax''\<rparr>))\<rparr>))
         | _ \<Rightarrow> Inl TypeError)"

text \<open>
  \<open>cookie.expires && new Date() > new Date(cookie.expires)\<close>, with the clock reading
  \<open>now\<close> and the date parser of the platform as parameters (\<open>None\<close> is an invalid date,
  which compares false).
\<close>

definition expired :: "(string \<Rightarrow> int option) \<Rightarrow> int \<Rightarrow> cookie \<Rightarrow> bool" where
  "expired date_parse now c =
     (case expires c of
        None \<Rightarrow> False
      | Some e \<Rightarrow> e \<noteq> [] \<and> (case date_parse e of None \<Rightarrow> False | Some t \<Rightarrow> now > t))"

text \<open>
  \<open>getCookie(domain, name)\<close> returns \<open>null\<close> (\<open>None\<close>) or the value, and the manager as
  it is afterwards.  Calling \<open>get\<close> on a truthy value that is no \<open>Map\<close> throws.
\<close>

definition getCookie ::
  "(string \<Rightarrow> int option) \<Rightarrow> int \<Rightarrow> cookie_manager \<Rightarrow> string \<Rightarrow> string
     \<Rightarrow> js_error + (string option \<times> cookie_manager)" where
  "getCookie date_parse now st d n =
     (case map_get (cookieStore st) d of
        None \<Rightarrow> Inr (None, st)
      | Some e \<Rightarrow>
          if \<not> entry_truthy e then Inr (None, st)
          else
            (case e of
               Loaded j \<Rightarrow> Inl TypeError
             | DomainMap domainCookies \<Rightarrow>
                 (case map_get domainCookies n of
                    None \<Rightarrow> Inr (None, st)
                  | Some c \<Rightarrow>
                      if expired date_parse now c then
                        Inr (None, saveCookies (st\<lparr>cookieStore :=
                          map_set (cookieStore st) d (DomainMap (map_delete domainCookies n))\<rparr>))
                      else Inr (Some (cookie_value c), st))))"

text \<open>
  An example: a first visit with an empty storage sets one cookie; the page is then
  loaded again on the storage that the first visit left behind.
\<close>

definition first_visit :: cookie_manager where
  "first_visit =
     (case setCookie (new_CookieManager Map.empty False) ''a.example'' ''k'' ''v'' no_options of
        Inr st \<Rightarrow> st
      | Inl err \<Rightarrow> new_CookieManager Map.empty False)"

definition second_visit :: cookie_manager where
  "second_visit = new_CookieManager (localStorage first_visit) False"

text \<open>
  The managers that \<open>setCookie\<close> builds on a page without stored cookies, and what holds
  of their stores: distinct domains, each with a \<open>Map\<close> of cookies.
\<close>

inductive set_reachable :: "cookie_manager \<Rightarrow> bool" where
  sr_new: "set_reachable (new_CookieManager Map.empty full)"
| sr_set: "set_reachable st \<Longrightarrow> setCookie st d n v opts = Inr st' \<Longrightarrow> set_reachable st'"

definition maps_only :: "cookie_manager \<Rightarrow> bool" where
  "maps_only st \<longleftrightarrow>
     distinct (map fst (cookieStore st)) \<and>
     (\<forall>k e. (k, e) \<in> set (cookieStore st) \<longrightarrow> (\<exists>m. e = DomainMap m))"

subsection \<open>The retries of a navigation\<close>

text \<open>
  \<open>navigateToUrl\<close> declares \<open>connectionRetries = 0\<close> and \<open>maxRetries = 3\<close>; four callbacks
  share the counter.  An event is one of the callbacks finding a failure: the \<open>catch\<close> of
  \<open>establishConnection\<close>, \<open>iframe.onerror\<close>, the 30 second load timeout finding the
  document incomplete, and the monitor for social media sites finding it still loading.
  What a callback does is recorded as an action.
\<close>

datatype event = ConnectionFailed | IframeError | LoadTimeout | SlowLoading

datatype action = Reconnect | ReloadIframe | ShowError string

record navigation =
  connectionRetries :: nat
  actions :: "action list"

definition maxRetries :: nat where
  "maxRetries = 3"

definition start_navigation :: navigation where
  "start_navigation = \<lparr>connectionRetries = 0, actions = []\<rparr>"

definition retry :: "navigation \<Rightarrow> action \<Rightarrow> navigation" where
  "retry nav a = nav\<lparr>connectionRetries := connectionRetries nav + 1, actions := actions nav @ [a]\<rparr>"

definition showError :: "navigation \<Rightarrow> string \<Rightarrow> navigation" where
  "showError nav msg = nav\<lparr>actions := actions nav @ [ShowError msg]\<rparr>"

fun on_event :: "navigation \<Rightarrow> event \<Rightarrow> navigation" where
  "on_event nav ConnectionFailed =
     (if connectionRetries nav < maxRetries then retry nav Reconnect
      else showError nav ''Connection failed. Please try again.'')"
| "on_event nav IframeError =
     (if connectionRetries nav < maxRetries then retry nav ReloadIframe
      else showError nav ''Connection failed after multiple attempts. Please try again.'')"
| "on_event nav LoadTimeout =
     (if connectionRetries nav < maxRetries then retry nav ReloadIframe
      else showError nav ''Page took too long to load. Please try again.'')"
| "on_event nav SlowLoading =
     (if connectionRetries nav < maxRetries then retry nav ReloadIframe else nav)"

definition run :: "event list \<Rightarrow> navigation" where
  "run evs = foldl on_event start_navigation evs"

fun is_retry :: "action \<Rightarrow> bool" where
  "is_retry (ShowError msg) = False"
| "is_retry a = True"

definition retries :: "navigation \<Rightarrow> nat" where
  "retries nav = length (filter is_retry (actions nav))"

section \<open>Properties\<close>

lemma startsWith_iff: "startsWith s p \<longleftrightarrow> (\<exists>r. s = p @ r)"
  unfolding startsWith_def
  by (metis append_eq_conv_conj append_take_drop_id)

lemma endsWith_iff: "endsWith s p \<longleftrightarrow> (\<exists>r. s = r @ p)"
proof
  assume "endsWith s p"
  then have "drop (length s - length p) s = p"
    by (simp add: endsWith_def)
  then have "s = take (length s - length p) s @ p"
    by (metis append_take_drop_id)
  then show "\<exists>r. s = r @ p" ..
next
  assume "\<exists>r. s = r @ p"
  then show "endsWith s p"
    by (auto simp: endsWith_def)
qed

lemma map_get_set_same: "map_get (map_set m k v) k = Some v"
  by (induction m) (auto simp: map_get_def)

lemma map_get_set_other: "k' \<noteq> k \<Longrightarrow> map_get (map_set m k v) k' = map_get m k'"
  by (induction m) (auto simp: map_get_def)

text \<open>
  C7.  An upgrade request is routed to the wisp handler exactly when its URL ends with
  \<open>/wisp/\<close> (that is, the URL is some text followed by \<open>/wisp/\<close>); every other upgrade
  request has its socket ended.
\<close>

theorem upgrade_routed_iff_wisp_suffix:
  "on_upgrade url = (if \<exists>r. url = r @ ''/wisp/'' then RouteRequest else SocketEnd)"
  by (simp add: on_upgrade_def endsWith_iff)

subsection \<open>The isolation headers\<close>

lemma lower_coop: "toLowerCase ''Cross-Origin-Opener-Policy'' = ''cross-origin-opener-policy''"
  by (simp add: toLowerCase_def toLowerChar_def)

lemma lower_coep: "toLowerCase ''Cross-Origin-Embedder-Policy'' = ''cross-origin-embedder-policy''"
  by (simp add: toLowerCase_def toLowerChar_def)

text \<open>
  C2.  Unless the URL of a request starts with \<open>/ads/\<close>, the response that the request
  listener hands to the framework carries \<open>Cross-Origin-Opener-Policy: same-origin\<close> and
  \<open>Cross-Origin-Embedder-Policy: require-corp\<close>; for a URL that starts with \<open>/ads/\<close> the
  listener sets no header at all and hands the response on as it is.
\<close>

theorem isolation_headers_unless_ads:
  "(if \<exists>r. url = ''/ads/'' @ r then request_headers url res = res
    else getHeader (request_headers url res) ''Cross-Origin-Opener-Policy'' = Some ''same-origin'' \<and>
         getHeader (request_headers url res) ''Cross-Origin-Embedder-Policy'' = Some ''require-corp'')
   \<and> on_request handler url res = handler url (request_headers url res)"
  by (simp add: request_headers_def on_request_def startsWith_iff getHeader_def setHeader_def
      lower_coop lower_coep map_get_set_same map_get_set_other)

subsection \<open>The guards of the relay\<close>







subsection \<open>The rewriting passes of the relay\<close>














subsection \<open>Tabs and their histories\<close>

lemma map_get_set: "map_get (map_set m k v) k' = (if k' = k then Some v else map_get m k')"
  by (induction m) (auto simp: map_get_def)

lemma map_get_delete: "map_get (map_delete m k) k' = (if k' = k then None else map_get m k')"
  by (induction m) (auto simp: map_get_def map_delete_def)

lemma keys_map_set:
  "map fst (map_set m k v) = (if k \<in> set (map fst m) then map fst m else map fst m @ [k])"
  by (induction m) force+

lemma map_set_not_Nil: "map_set m k v \<noteq> []"
  by (cases m) (auto split: if_splits)

lemma distinct_map_delete: "distinct (map fst m) \<Longrightarrow> distinct (map fst (map_delete m k))"
  by (simp add: map_delete_def distinct_map_filter)

lemma map_delete_not_Nil:
  assumes "distinct (map fst m)" "\<not> length m \<le> 1"
  shows "map_delete m k \<noteq> []"
proof -
  from assms(2) obtain a b r where m: "m = a # b # r"
    by (cases m; cases "tl m") auto
  with assms(1) have "fst a \<noteq> fst b"
    by auto
  then have "fst a \<noteq> k \<or> fst b \<noteq> k"
    by auto
  then show ?thesis
    by (auto simp: m map_delete_def)
qed

lemma switchToTab_fields [simp]:
  "tabs (switchToTab s x) = tabs s" "history (switchToTab s x) = history s"
  "currentHistoryIndex (switchToTab s x) = currentHistoryIndex s"
  by (simp_all add: switchToTab_def Let_def)

lemma tabs_inv_closeTab: "tabs_inv s \<Longrightarrow> tabs_inv (closeTab s tabId)"
  by (auto simp: tabs_inv_def closeTab_def Let_def distinct_map_delete map_delete_not_Nil
      split: option.splits)

lemma tabs_inv_reachable: "reachable s \<Longrightarrow> tabs_inv s"
proof (induction rule: reachable.induct)
  case (r_init d)
  show ?case
    by (simp add: tabs_inv_def initialize_def new_TabManager_def)
next
  case (r_createTab s url ttl)
  then show ?case
    by (simp add: tabs_inv_def createTab_def Let_def keys_map_set map_set_not_Nil)
next
  case (r_closeTab s tabId)
  from r_closeTab.IH show ?case by (rule tabs_inv_closeTab)
next
  case (r_switchToTab s tabId)
  then show ?case by (simp add: tabs_inv_def)
next
  case (r_updateTabTitle s tabId ttl)
  then show ?case
    by (auto simp: tabs_inv_def updateTabTitle_def keys_map_set map_set_not_Nil split: option.splits)
next
  case (r_updateTabUrl s tabId u)
  then show ?case
    by (auto simp: tabs_inv_def updateTabUrl_def keys_map_set map_set_not_Nil split: option.splits)
next
  case (r_addToHistory s tabId u)
  then show ?case by (simp add: tabs_inv_def addToHistory_def Let_def)
next
  case (r_goBack s)
  then show ?case by (simp add: tabs_inv_def goBack_def split: option.splits)
next
  case (r_goForward s)
  then show ?case by (simp add: tabs_inv_def goForward_def split: option.splits)
qed

lemma history_inv_reachable: "reachable s \<Longrightarrow> history_inv s"
proof (induction rule: reachable.induct)
  case (r_init d)
  show ?case
    by (simp add: history_inv_def initialize_def new_TabManager_def map_get_set)
      (simp add: map_get_def)
next
  case (r_createTab s url ttl)
  then show ?case
    by (simp add: history_inv_def createTab_def Let_def map_get_set)
next
  case (r_closeTab s tabId)
  then show ?case
    by (auto simp: history_inv_def closeTab_def Let_def map_get_delete split: option.splits)
next
  case (r_switchToTab s tabId)
  then show ?case by (simp add: history_inv_def)
next
  case (r_updateTabTitle s tabId ttl)
  then show ?case by (simp add: history_inv_def updateTabTitle_def split: option.splits)
next
  case (r_updateTabUrl s tabId u)
  then show ?case by (simp add: history_inv_def updateTabUrl_def split: option.splits)
next
  case (r_addToHistory s tabId u)
  then show ?case
    by (simp add: history_inv_def addToHistory_def Let_def map_get_set map_has_def)
next
  case (r_goBack s)
  then show ?case
    by (auto simp: history_inv_def goBack_def map_get_set map_get_opt_def template_def
        split: option.splits)
next
  case (r_goForward s)
  then show ?case
    by (auto simp: history_inv_def goForward_def map_get_set map_get_opt_def template_def
        split: option.splits)
qed

lemma splice_from_take: "0 \<le> start \<Longrightarrow> splice_from a start = take (nat start) a"
  by (simp add: splice_from_def Let_def min_def)

text \<open>
  C4.  In every reachable state, \<open>addToHistory(t, u)\<close> keeps the entries of the history
  of \<open>t\<close> up to and including the current index, drops the entries after it, appends
  \<open>u\<close>, and sets the current index of \<open>t\<close> to the last position, where \<open>u\<close> now is.
\<close>

theorem addToHistory_truncates_and_appends:
  assumes "reachable s"
  shows "map_get (history (addToHistory s t u)) t
           = Some (take (nat (index_of s t + 1)) (history_of s t) @ [u]) \<and>
         map_get (currentHistoryIndex (addToHistory s t u)) t
           = Some (int (length (history_of (addToHistory s t u) t)) - 1) \<and>
         history_of (addToHistory s t u) t ! nat (index_of (addToHistory s t u) t) = u"
proof -
  from assms have inv: "history_inv s"
    by (rule history_inv_reachable)
  show ?thesis
  proof (cases "map_get (history s) t")
    case None
    then show ?thesis
      by (simp add: addToHistory_def Let_def map_has_def map_get_def [symmetric] map_get_set
          history_of_def index_of_def splice_from_take)
  next
    case (Some h)
    with inv obtain i where i: "map_get (currentHistoryIndex s) t = Some i" "- 1 \<le> i"
      by (auto simp: history_inv_def)
    with Some show ?thesis
      by (simp add: addToHistory_def Let_def map_has_def map_get_def [symmetric] map_get_set
          history_of_def index_of_def splice_from_take nth_append)
  qed
qed

theorem addToHistory_truncates_and_appends_witness:
  "reachable example_tabs \<and>
   map_get (history example_tabs) ''home'' = Some [''a.example'', ''b.example''] \<and>
   map_get (currentHistoryIndex example_tabs) ''home'' = Some 0 \<and>
   map_get (history (addToHistory example_tabs ''home'' ''c.example'')) ''home''
     = Some [''a.example'', ''c.example''] \<and>
   map_get (currentHistoryIndex (addToHistory example_tabs ''home'' ''c.example'')) ''home''
     = Some 1"
proof -
  have r: "reachable example_tabs"
    unfolding example_tabs_def by (intro reachable.intros)
  have h: "map_get (history example_tabs) ''home'' = Some [''a.example'', ''b.example'']"
    by code_simp
  have i: "map_get (currentHistoryIndex example_tabs) ''home'' = Some 0"
    by code_simp
  from h i have "history_of example_tabs ''home'' = [''a.example'', ''b.example'']"
    and "index_of example_tabs ''home'' = 0"
    by (simp_all add: history_of_def index_of_def)
  with addToHistory_truncates_and_appends [OF r, of "''home''" "''c.example''"]
  have "map_get (history (addToHistory example_tabs ''home'' ''c.example'')) ''home''
          = Some [''a.example'', ''c.example'']"
    and "map_get (currentHistoryIndex (addToHistory example_tabs ''home'' ''c.example'')) ''home''
          = Some 1"
    by (simp_all add: history_of_def)
  with r h i show ?thesis
    by simp
qed

text \<open>
  C9.  \<open>closeTab\<close> returns the state as it is (tabs, histories, indices and document)
  whenever there is at most one tab, and in every state reachable from a loaded page
  the map of tabs is non-empty, also after a further \<open>closeTab\<close>.
\<close>

theorem last_tab_is_never_closed:
  "(length (tabs s) \<le> 1 \<longrightarrow> closeTab s tabId = s) \<and>
   (reachable s \<longrightarrow> tabs s \<noteq> [] \<and> tabs (closeTab s tabId) \<noteq> [])"
proof (intro conjI impI)
  assume "length (tabs s) \<le> 1"
  then show "closeTab s tabId = s"
    by (simp add: closeTab_def)
next
  assume "reachable s"
  then show "tabs s \<noteq> []"
    using tabs_inv_reachable by (simp add: tabs_inv_def)
next
  assume "reachable s"
  then have "reachable (closeTab s tabId)"
    by (rule r_closeTab)
  then show "tabs (closeTab s tabId) \<noteq> []"
    using tabs_inv_reachable by (simp add: tabs_inv_def)
qed

theorem last_tab_is_never_closed_witness:
  "length (tabs example_home) \<le> 1 \<and> reachable example_home \<and>
   closeTab example_home ''home'' = example_home \<and>
   tabs example_home \<noteq> [] \<and> tabs (closeTab example_home ''home'') \<noteq> []"
proof -
  have l: "length (tabs example_home) \<le> 1"
    by (simp add: example_home_def initialize_def new_TabManager_def)
  have r: "reachable example_home"
    unfolding example_home_def by (rule r_init)
  from l r last_tab_is_never_closed [of example_home "''home''"] show ?thesis
    by blast
qed

subsection \<open>The cookie store\<close>

lemma foldl_map_set_distinct:
  "distinct (map fst acc @ map fst kvs) \<Longrightarrow>
     foldl (\<lambda>m (k, v). map_set m k v) acc kvs = acc @ kvs"
proof (induction kvs arbitrary: acc)
  case Nil
  then show ?case by simp
next
  case (Cons kv kvs)
  obtain k v where kv: "kv = (k, v)"
    by (cases kv)
  from Cons.prems have new: "k \<notin> fst ` set acc"
    by (auto simp: kv)
  have step: "map_set acc k v = acc @ [(k, v)]"
    using new by (induction acc) auto
  from Cons.prems have "distinct (map fst (acc @ [(k, v)]) @ map fst kvs)"
    by (auto simp: kv)
  then have "foldl (\<lambda>m (k, v). map_set m k v) (acc @ [(k, v)]) kvs = (acc @ [(k, v)]) @ kvs"
    by (rule Cons.IH)
  then show ?case
    by (simp add: kv step)
qed

lemma fromEntries_distinct: "distinct (map fst kvs) \<Longrightarrow> fromEntries kvs = kvs"
  using foldl_map_set_distinct [of "[]" kvs] by (simp add: fromEntries_def)

lemma cookieStore_saveCookies [simp]: "cookieStore (saveCookies st) = cookieStore st"
  by (simp add: saveCookies_def Let_def)

lemma save_then_load:
  assumes "distinct (map fst (cookieStore st))" "\<not> storage_full st"
  shows "cookieStore (loadCookies (saveCookies st))
         = map (\<lambda>(d, e). (d, Loaded (entry_json e))) (cookieStore st)"
proof -
  let ?doc = "map (\<lambda>(d, e). (d, entry_json e)) (cookieStore st)"
  let ?l = "map (\<lambda>(d, e). (d, Loaded (entry_json e))) (cookieStore st)"
  have l: "map (\<lambda>(k, v). (k, Loaded v)) ?doc = ?l"
    by (simp add: comp_def case_prod_unfold)
  have k: "map fst ?l = map fst (cookieStore st)"
    by (simp add: comp_def case_prod_unfold)
  have "distinct (map fst ?l)"
    by (simp only: k assms(1))
  then have "fromEntries ?l = ?l"
    by (rule fromEntries_distinct)
  moreover have "cookieStore (loadCookies (saveCookies st))
        = fromEntries (map (\<lambda>(k, v). (k, Loaded v)) ?doc)"
    using assms by (simp add: saveCookies_def loadCookies_def Let_def fromEntries_distinct)
  ultimately show ?thesis
    by (simp only: l)
qed

lemma map_has_iff: "map_has m k \<longleftrightarrow> map_get m k \<noteq> None"
  by (simp add: map_has_def map_get_def)

lemma map_get_Nil [simp]: "map_get [] k = None"
  by (simp add: map_get_def)

lemma map_get_Cons [simp]:
  "map_get ((k, v) # m) k' = (if k' = k then Some v else map_get m k')"
  by (simp add: map_get_def)

lemma first_visit_eq:
  "setCookie (new_CookieManager Map.empty False) ''a.example'' ''k'' ''v'' no_options
     = Inr first_visit"
  by (simp add: first_visit_def setCookie_def new_CookieManager_def loadCookies_def Let_def
      map_has_def map_get_def)

lemma first_visit_store:
  "cookieStore first_visit =
     [(''a.example'', DomainMap [(''k'',
        \<lparr>cookie_value = ''v'', domain = ''a.example'', path = ''/'', expires = None,
         secure = False, httpOnly = False, sameSite = ''Lax''\<rparr>)])]"
  by (simp add: first_visit_def setCookie_def new_CookieManager_def loadCookies_def Let_def
      map_has_def map_get_def no_options_def or_default_def or_false_def)

lemma first_visit_storage:
  "localStorage first_visit ''novanet_cookies''
     = Some (JSON_text (JObj [(''a.example'', JObj [])]))"
  by (simp add: first_visit_def setCookie_def new_CookieManager_def loadCookies_def Let_def
      map_has_def map_get_def saveCookies_def fromEntries_def)

lemma second_visit_store: "cookieStore second_visit = [(''a.example'', Loaded (JObj []))]"
  by (simp add: second_visit_def new_CookieManager_def loadCookies_def first_visit_storage
      fromEntries_def)

lemma setCookie_getCookie_on_maps:
  assumes "map_get (cookieStore st) d = None \<or> (\<exists>m. map_get (cookieStore st) d = Some (DomainMap m))"
  shows "\<exists>st' m. setCookie st d n v no_options = Inr st' \<and>
           getCookie date_parse now st' d n = Inr (Some v, st') \<and>
           map_get (cookieStore st') d = Some (DomainMap m) \<and>
           map_get m n = Some \<lparr>cookie_value = v, domain = d, path = ''/'', expires = None,
             secure = False, httpOnly = False, sameSite = ''Lax''\<rparr>"
  using assms
  by (auto simp: setCookie_def getCookie_def Let_def map_has_iff
      map_get_set no_options_def or_default_def or_false_def expired_def)

lemma getCookie_on_maps:
  assumes "map_get (cookieStore st) d = None \<or> (\<exists>m. map_get (cookieStore st) d = Some (DomainMap m))"
  shows "\<exists>r st'. getCookie date_parse now st d n = Inr (r, st') \<and>
           (r = None \<longleftrightarrow>
              map_get (cookieStore st) d = None \<or>
              (\<exists>m. map_get (cookieStore st) d = Some (DomainMap m) \<and>
                 (map_get m n = None \<or>
                  (\<exists>c. map_get m n = Some c \<and> expired date_parse now c)))) \<and>
           (\<forall>m c. map_get (cookieStore st) d = Some (DomainMap m) \<and> map_get m n = Some c \<longrightarrow>
              (if expired date_parse now c
               then st' = saveCookies (st\<lparr>cookieStore :=
                      map_set (cookieStore st) d (DomainMap (map_delete m n))\<rparr>)
               else r = Some (cookie_value c) \<and> st' = st))"
  using assms
  by (auto simp: getCookie_def split: option.splits)

lemma in_map_set: "(k', e) \<in> set (map_set m k v) \<Longrightarrow> e = v \<or> (k', e) \<in> set m"
  by (induction m) (auto split: if_splits)

lemma distinct_map_set: "distinct (map fst m) \<Longrightarrow> distinct (map fst (map_set m k v))"
  by (simp add: keys_map_set)

lemma maps_only_map_set:
  assumes "distinct (map fst m) \<and> (\<forall>k e. (k, e) \<in> set m \<longrightarrow> (\<exists>cm. e = DomainMap cm))"
  shows "distinct (map fst (map_set m k (DomainMap x))) \<and>
         (\<forall>k' e. (k', e) \<in> set (map_set m k (DomainMap x)) \<longrightarrow> (\<exists>cm. e = DomainMap cm))"
  using assms distinct_map_set [of m k] in_map_set [of _ _ m k "DomainMap x"] by blast

lemma maps_only_setCookie:
  assumes "maps_only st" "setCookie st d n v opts = Inr st'"
  shows "maps_only st'"
proof -
  let ?store1 = "if \<not> map_has (cookieStore st) d
                 then map_set (cookieStore st) d (DomainMap []) else cookieStore st"
  from assms(2) obtain m c where st': "cookieStore st' = map_set ?store1 d (DomainMap (map_set m n c))"
    by (auto simp: setCookie_def Let_def split: option.splits entry.splits)
  from assms(1) have "distinct (map fst ?store1) \<and>
      (\<forall>k e. (k, e) \<in> set ?store1 \<longrightarrow> (\<exists>cm. e = DomainMap cm))"
    using maps_only_map_set [of "cookieStore st" d "[]"] by (simp add: maps_only_def)
  then have "distinct (map fst (cookieStore st')) \<and>
      (\<forall>k e. (k, e) \<in> set (cookieStore st') \<longrightarrow> (\<exists>cm. e = DomainMap cm))"
    unfolding st' by (rule maps_only_map_set)
  then show ?thesis
    by (simp add: maps_only_def)
qed

lemma maps_only_set_reachable: "set_reachable st \<Longrightarrow> maps_only st"
proof (induction rule: set_reachable.induct)
  case (sr_new full)
  show ?case
    by (simp add: maps_only_def new_CookieManager_def loadCookies_def)
next
  case (sr_set st d n v opts st')
  then show ?case
    by (simp add: maps_only_setCookie)
qed

lemma set_reachable_round_trip:
  assumes "set_reachable st" "\<not> storage_full st"
  shows "cookieStore (loadCookies (saveCookies st))
         = map (\<lambda>(d, e). (d, Loaded (JObj []))) (cookieStore st)"
    and "cookieStore st \<noteq> [] \<Longrightarrow> cookieStore (loadCookies (saveCookies st)) \<noteq> cookieStore st"
proof -
  from assms(1) have m: "maps_only st"
    by (rule maps_only_set_reachable)
  then have "cookieStore (loadCookies (saveCookies st))
         = map (\<lambda>(d, e). (d, Loaded (entry_json e))) (cookieStore st)"
    using assms(2) by (simp add: save_then_load maps_only_def)
  also have "\<dots> = map (\<lambda>(d, e). (d, Loaded (JObj []))) (cookieStore st)"
  proof (rule map_cong [OF refl])
    fix x assume "x \<in> set (cookieStore st)"
    with m obtain d cm where "x = (d, DomainMap cm)"
      by (cases x) (auto simp: maps_only_def)
    then show "(case x of (d, e) \<Rightarrow> (d, Loaded (entry_json e)))
        = (case x of (d, e) \<Rightarrow> (d, Loaded (JObj [])))"
      by simp
  qed
  finally show eq: "cookieStore (loadCookies (saveCookies st))
         = map (\<lambda>(d, e). (d, Loaded (JObj []))) (cookieStore st)" .
  assume "cookieStore st \<noteq> []"
  then obtain d e r where s: "cookieStore st = (d, e) # r"
    by (cases "cookieStore st") auto
  then have "(d, e) \<in> set (cookieStore st)"
    by simp
  with m obtain cm where "e = DomainMap cm"
    unfolding maps_only_def by blast
  with s show "cookieStore (loadCookies (saveCookies st)) \<noteq> cookieStore st"
    unfolding eq by auto
qed

text \<open>
  C1.  The claim is that a store built by \<open>setCookie\<close> comes back the same from
  \<open>saveCookies\<close> followed by \<open>loadCookies\<close>.  The code does not achieve it.  After
  \<open>setCookie('a.example', 'k', 'v')\<close> on a fresh page the store maps \<open>a.example\<close> to a
  \<open>Map\<close> with the cookie \<open>k\<close>; \<open>saveCookies\<close> writes \<open>{"a.example":{}}\<close>, and
  \<open>loadCookies\<close> reads back a store that maps \<open>a.example\<close> to an empty plain object:
  the cookie is gone.
\<close>

theorem saved_cookies_do_not_reload:
  "setCookie (new_CookieManager Map.empty False) ''a.example'' ''k'' ''v'' no_options
     = Inr first_visit \<and>
   cookieStore first_visit =
     [(''a.example'', DomainMap [(''k'',
        \<lparr>cookie_value = ''v'', domain = ''a.example'', path = ''/'', expires = None,
         secure = False, httpOnly = False, sameSite = ''Lax''\<rparr>)])] \<and>
   localStorage (saveCookies first_visit) ''novanet_cookies''
     = Some (JSON_text (JObj [(''a.example'', JObj [])])) \<and>
   cookieStore (loadCookies (saveCookies first_visit)) = [(''a.example'', Loaded (JObj []))] \<and>
   cookieStore (loadCookies (saveCookies first_visit)) \<noteq> cookieStore first_visit"
proof -
  have full: "\<not> storage_full first_visit"
    by (simp add: first_visit_def setCookie_def new_CookieManager_def loadCookies_def Let_def
      map_has_def map_get_def saveCookies_def)
  have "localStorage (saveCookies first_visit) ''novanet_cookies''
     = Some (JSON_text (JObj [(''a.example'', JObj [])]))"
    using full by (simp add: saveCookies_def first_visit_store fromEntries_def)
  moreover have "cookieStore (loadCookies (saveCookies first_visit))
      = [(''a.example'', Loaded (JObj []))]"
    using full by (simp add: save_then_load first_visit_store)
  ultimately show ?thesis
    by (simp add: first_visit_eq first_visit_store)
qed

text \<open>
  C6.  The claim is that \<open>setCookie(d, n, v)\<close> followed by \<open>getCookie(d, n)\<close> returns
  \<open>v\<close>.  On a page loaded again after \<open>a.example\<close> got a cookie, the store maps
  \<open>a.example\<close> to a plain object, and \<open>setCookie('a.example', 'n', 'w')\<close> throws a
  \<open>TypeError\<close> instead of storing anything.  (\<open>setCookie_getCookie_on_maps\<close> above
  shows the claim where the entry of the domain is absent or a \<open>Map\<close>.)
\<close>

theorem setCookie_throws_after_reload:
  "cookieStore second_visit = [(''a.example'', Loaded (JObj []))] \<and>
   setCookie second_visit ''a.example'' ''n'' ''w'' no_options = Inl TypeError"
  by (simp add: setCookie_def second_visit_store map_has_def map_get_def)

text \<open>
  C10.  The claim is that \<open>getCookie(d, n)\<close> returns \<open>null\<close> exactly when the domain has
  no cookies, the cookie does not exist or it has expired.  On the page loaded again,
  \<open>a.example\<close> has no cookie named \<open>k\<close>, and \<open>getCookie('a.example', 'k')\<close> throws a
  \<open>TypeError\<close> instead of returning \<open>null\<close>, at any time and with any date parser.
  (\<open>getCookie_on_maps\<close> above shows the claim, with the deletion and the save of the
  expired case, where the entry of the domain is absent or a \<open>Map\<close>.)
\<close>

theorem getCookie_throws_after_reload:
  "cookieStore second_visit = [(''a.example'', Loaded (JObj []))] \<and>
   getCookie date_parse now second_visit ''a.example'' ''k'' = Inl TypeError"
  by (simp add: getCookie_def second_visit_store map_get_def)

subsection \<open>The retries of a navigation\<close>

lemma retries_on_event:
  "retries (on_event nav ev)
     = retries nav + (if connectionRetries nav < maxRetries then 1 else 0)"
  by (cases ev) (simp_all add: retries_def retry_def showError_def)

lemma counter_on_event:
  "connectionRetries (on_event nav ev)
     = connectionRetries nav + (if connectionRetries nav < maxRetries then 1 else 0)"
  by (cases ev) (simp_all add: retry_def showError_def)

lemma run_snoc: "run (evs @ [ev]) = on_event (run evs) ev"
  by (simp add: run_def)

lemma run_counts:
  "connectionRetries (run evs) \<le> maxRetries \<and> retries (run evs) = connectionRetries (run evs)"
proof (induction evs rule: rev_induct)
  case Nil
  show ?case
    by (simp add: run_def start_navigation_def retries_def)
next
  case (snoc ev evs)
  then show ?case
    by (simp add: run_snoc retries_on_event counter_on_event)
qed

text \<open>
  C8.  Whatever failures a navigation meets, in whatever order: it has made at most
  three retries; a further failure leads to a retry exactly while the shared counter is
  below \<open>maxRetries\<close>; and once three retries have been made, a failed connection
  attempt or an iframe error shows an error message and schedules no retry.
\<close>

theorem at_most_three_retries:
  "retries (run evs) \<le> 3 \<and>
   retries (on_event (run evs) ev)
     = retries (run evs) + (if connectionRetries (run evs) < maxRetries then 1 else 0) \<and>
   (retries (run evs) = 3 \<and> (ev = ConnectionFailed \<or> ev = IframeError) \<longrightarrow>
      (\<exists>msg. actions (on_event (run evs) ev) = actions (run evs) @ [ShowError msg]) \<and>
      retries (on_event (run evs) ev) = 3)"
proof -
  have c: "connectionRetries (run evs) \<le> maxRetries" "retries (run evs) = connectionRetries (run evs)"
    using run_counts [of evs] by simp_all
  have "retries (run evs) \<le> 3"
    using c by (simp add: maxRetries_def)
  moreover have "(\<exists>msg. actions (on_event (run evs) ev) = actions (run evs) @ [ShowError msg]) \<and>
      retries (on_event (run evs) ev) = 3"
    if "retries (run evs) = 3" "ev = ConnectionFailed \<or> ev = IframeError"
    using that c by (auto simp: retries_on_event maxRetries_def showError_def)
  ultimately show ?thesis
    by (simp add: retries_on_event)
qed

theorem at_most_three_retries_witness:
  "retries (run [ConnectionFailed, IframeError, ConnectionFailed]) = 3 \<and>
   actions (on_event (run [ConnectionFailed, IframeError, ConnectionFailed]) IframeError)
     = [Reconnect, ReloadIframe, Reconnect,
        ShowError ''Connection failed after multiple attempts. Please try again.''] \<and>
   retries (on_event (run [ConnectionFailed, IframeError, ConnectionFailed]) IframeError) = 3"
proof -
  have r: "retries (run [ConnectionFailed, IframeError, ConnectionFailed]) = 3"
    by (simp add: run_def start_navigation_def retries_def retry_def maxRetries_def)
  have a: "actions (on_event (run [ConnectionFailed, IframeError, ConnectionFailed]) IframeError)
     = [Reconnect, ReloadIframe, Reconnect,
        ShowError ''Connection failed after multiple attempts. Please try again.'']"
    by (simp add: run_def start_navigation_def retry_def showError_def maxRetries_def)
  from r at_most_three_retries [of "[ConnectionFailed, IframeError, ConnectionFailed]" IframeError]
  have "retries (on_event (run [ConnectionFailed, IframeError, ConnectionFailed]) IframeError) = 3"
    by blast
  with r a show ?thesis
    by simp
qed

end
